theory Spec2Isabelle
  imports Complex_Main "HOL-Library.Word"
begin

section \<open>Data model of transcribe.py\<close>

text \<open>
  The program keeps everything in memory. A value passed between the stages is either a
  raw \<open>bytes\<close> object or an \<open>io.BytesIO\<close> object wrapping bytes; Python tells the two
  apart at run time (\<open>io.BytesIO(x)\<close> raises \<open>TypeError\<close> unless \<open>x\<close> is bytes-like, and an
  \<open>io.BytesIO\<close> object is not), so the model keeps them apart too.
\<close>

type_synonym byte = "8 word"

datatype buffer = Bytes "byte list" | BytesIO "byte list"

text \<open>
  Exceptions that can end a run. The first seven are raised by the source or by the
  libraries it calls: a failed \<open>requests.get\<close>/\<open>raise_for_status\<close> (\<open>DownloadError\<close>),
  Python's \<open>TypeError\<close> and \<open>ValueError\<close>, a failed \<open>ffmpeg\<close> run or \<open>AudioSegment.from_file\<close>
  (\<open>DecodeError\<close>), a failed \<open>whisper.load_model\<close> (\<open>ModelLoadError\<close>), a failed transcription
  of one chunk with the engine's detail (\<open>TranscriptionError\<close>) and a failed \<open>open\<close>
  (\<open>OSError\<close>). \<open>InvalidConfig\<close> and \<open>TranscriptionFailed\<close> are names of the specification's
  error taxonomy; no line of the source raises them.
\<close>

datatype error =
    DownloadError
  | TypeError
  | DecodeError
  | ValueError
  | ModelLoadError
  | TranscriptionError string
  | OSError
  | InvalidConfig
  | TranscriptionFailed

text \<open>
  Calls that leave the process, in the order they are made: the HTTP request, the ffmpeg
  run, the decoding of the audio buffer by pydub, the loading of the whisper model, one
  transcription call per chunk, the opening of the output file for writing, and the final
  message on standard output.
\<close>

datatype event =
    HttpGet string
  | FfmpegRun "byte list"
  | FromFile buffer
  | LoadModel
  | Transcribe buffer
  | OpenWrite string
  | PrintSaved string

record world =
  files :: "string \<rightharpoonup> string"
  trace :: "event list"

text \<open>
  The libraries are parameters of the model. Each is a deterministic function that either
  fails or returns its result. A decoded \<open>AudioSegment\<close> is a list with one element per
  millisecond of audio, the resolution at which pydub's \<open>len\<close> and slicing are defined;
  \<open>export_wav\<close> is \<open>chunk.export(..., format="wav")\<close>, taken to succeed. A whisper model is
  the function from a chunk buffer to the text of \<open>result['text']\<close>, or to the detail of the
  exception it raises.
\<close>

type_synonym model = "buffer \<Rightarrow> string + string"

record 'a env =
  http_get :: "string \<Rightarrow> byte list option"
  ffmpeg_run :: "byte list \<Rightarrow> (byte list \<times> byte list) option"
  from_file :: "buffer \<Rightarrow> 'a list option"
  export_wav :: "'a list \<Rightarrow> byte list"
  load_model :: "model option"
  can_open :: "string \<Rightarrow> bool"

type_synonym 'r io = "world \<Rightarrow> (error + 'r) \<times> world"

definition emit :: "event \<Rightarrow> world \<Rightarrow> world" where
  "emit e w = w\<lparr>trace := trace w @ [e]\<rparr>"

text \<open>Sequencing of two statements: an exception of the first skips the second.\<close>

definition bind_io :: "'r io \<Rightarrow> ('r \<Rightarrow> 's io) \<Rightarrow> 's io" where
  "bind_io m f w = (case m w of (Inl e, w') \<Rightarrow> (Inl e, w') | (Inr x, w') \<Rightarrow> f x w')"

definition newline :: string where
  "newline = [CHR 0x0A]"

section \<open>The stages\<close>

text \<open>
  \<open>VideoDownloader.download_video\<close>: the response body, wrapped in an \<open>io.BytesIO\<close>
  (whatever the annotation \<open>-> bytes\<close> says).
\<close>

definition download_video :: "'a env \<Rightarrow> string \<Rightarrow> buffer io" where
  "download_video env video_url w =
     (let w' = emit (HttpGet video_url) w in
      case http_get env video_url of
        None \<Rightarrow> (Inl DownloadError, w')
      | Some content \<Rightarrow> (Inr (BytesIO content), w'))"

text \<open>
  \<open>AudioExtractor.extract_audio\<close>: \<open>io.BytesIO(self.video_data)\<close> needs a bytes-like
  argument; then ffmpeg runs on the video bytes with its standard output captured, the
  result of \<open>run\<close> is dropped, and the fresh \<open>audio_output = io.BytesIO()\<close> is returned.
\<close>

definition extract_audio :: "'a env \<Rightarrow> buffer \<Rightarrow> buffer io" where
  "extract_audio env video_data w =
     (case video_data of
        BytesIO _ \<Rightarrow> (Inl TypeError, w)
      | Bytes video \<Rightarrow>
          (let w' = emit (FfmpegRun video) w in
           case ffmpeg_run env video of
             None \<Rightarrow> (Inl DecodeError, w')
           | Some (out, err) \<Rightarrow> (Inr (BytesIO []), w')))"

text \<open>
  Python's \<open>range(start, stop, step)\<close> as the list it iterates over: \<open>ValueError\<close> for a
  zero step, ascending for a positive one, descending for a negative one.
\<close>

function range_from :: "int \<Rightarrow> int \<Rightarrow> int \<Rightarrow> int list" where
  "range_from i stop step =
     (if (0 < step \<and> i < stop) \<or> (step < 0 \<and> stop < i)
      then i # range_from (i + step) stop step
      else [])"
  by pat_completeness auto
termination
  by (relation "measure (\<lambda>(i, stop, step). nat (if 0 < step then stop - i else i - stop))")
     auto

declare range_from.simps [simp del]

definition py_range :: "int \<Rightarrow> int \<Rightarrow> int \<Rightarrow> error + int list" where
  "py_range start stop step =
     (if step = 0 then Inl ValueError else Inr (range_from start stop step))"

text \<open>
  pydub's \<open>audio[start:stop]\<close> in milliseconds: both bounds are clipped to the length, a
  negative bound counts from the end, and the result is the audio between them.
\<close>

definition audio_slice :: "'a list \<Rightarrow> int \<Rightarrow> int \<Rightarrow> 'a list" where
  "audio_slice audio start stop =
     (let n = int (length audio);
          s = min start n;
          e = min stop n;
          s' = (if s < 0 then n + s else s);
          e' = (if e < 0 then n + e else e)
      in take (nat e' - nat s') (drop (nat s') audio))"

text \<open>
  The loop of \<open>AudioSplitter.split_audio\<close> on the decoded audio: one slice of
  \<open>chunk_duration * 1000\<close> milliseconds per element of the range, in the order of the
  range.
\<close>

definition audio_chunks :: "'a list \<Rightarrow> int \<Rightarrow> error + 'a list list" where
  "audio_chunks audio chunk_duration =
     (case py_range 0 (int (length audio)) (chunk_duration * 1000) of
        Inl e \<Rightarrow> Inl e
      | Inr starts \<Rightarrow>
          Inr (map (\<lambda>start_ms. audio_slice audio start_ms (start_ms + chunk_duration * 1000))
                 starts))"

text \<open>
  \<open>AudioSplitter.split_audio\<close>: decode the buffer, slice it, export every slice into a
  buffer of its own.
\<close>

definition split_audio :: "'a env \<Rightarrow> buffer \<Rightarrow> int \<Rightarrow> buffer list io" where
  "split_audio env audio_data chunk_duration w =
     (let w' = emit (FromFile audio_data) w in
      case from_file env audio_data of
        None \<Rightarrow> (Inl DecodeError, w')
      | Some audio \<Rightarrow>
          (case audio_chunks audio chunk_duration of
             Inl e \<Rightarrow> (Inl e, w')
           | Inr chunks \<Rightarrow> (Inr (map (\<lambda>chunk. BytesIO (export_wav env chunk)) chunks), w')))"

text \<open>\<open>Transcriber.__init__\<close> and \<open>Transcriber.transcribe\<close>.\<close>

definition Transcriber_init :: "'a env \<Rightarrow> model io" where
  "Transcriber_init env w =
     (let w' = emit LoadModel w in
      case load_model env of
        None \<Rightarrow> (Inl ModelLoadError, w')
      | Some m \<Rightarrow> (Inr m, w'))"

definition transcribe :: "model \<Rightarrow> buffer \<Rightarrow> string io" where
  "transcribe m audio_data w =
     (let w' = emit (Transcribe audio_data) w in
      case m audio_data of
        Inl detail \<Rightarrow> (Inl (TranscriptionError detail), w')
      | Inr text \<Rightarrow> (Inr text, w'))"

text \<open>
  The loop of \<open>process_video\<close> over the chunks, with \<open>full_text\<close> as accumulator. There is
  no \<open>try\<close> around the call of \<open>transcribe\<close>: an exception leaves the loop and the function.
\<close>

fun transcribe_loop :: "model \<Rightarrow> buffer list \<Rightarrow> string \<Rightarrow> string io" where
  "transcribe_loop m [] full_text w = (Inr full_text, w)"
| "transcribe_loop m (chunk # chunks) full_text w =
     (case transcribe m chunk w of
        (Inl e, w') \<Rightarrow> (Inl e, w')
      | (Inr text, w') \<Rightarrow> transcribe_loop m chunks (full_text @ text @ newline) w')"

text \<open>\<open>TextSaver.save_text\<close>: mode \<open>'w'\<close> replaces the content of the file.\<close>

definition save_text :: "'a env \<Rightarrow> string \<Rightarrow> string \<Rightarrow> unit io" where
  "save_text env file_path text w =
     (let w' = emit (OpenWrite file_path) w in
      if can_open env file_path
      then (Inr (), w'\<lparr>files := (files w')(file_path \<mapsto> text)\<rparr>)
      else (Inl OSError, w'))"

definition print_saved :: "string \<Rightarrow> unit io" where
  "print_saved file_path w = (Inr (), emit (PrintSaved file_path) w)"

text \<open>
  Steps 3 to 5 of \<open>VideoProcessor.process_video\<close>, from the audio buffer on: split with
  the default chunk duration of 30 seconds (\<open>AudioSplitter(audio_data)\<close> passes none), load
  the model, transcribe the chunks in order, save the text, print the message.
\<close>

definition process_audio :: "'a env \<Rightarrow> buffer \<Rightarrow> string \<Rightarrow> unit io" where
  "process_audio env audio_data output_text_file =
     bind_io (split_audio env audio_data 30) (\<lambda>chunks.
     bind_io (Transcriber_init env) (\<lambda>transcriber.
     bind_io (transcribe_loop transcriber chunks []) (\<lambda>full_text.
     bind_io (save_text env output_text_file full_text) (\<lambda>_.
     print_saved output_text_file))))"

text \<open>\<open>VideoProcessor.process_video\<close>: download, extract, then the steps above.\<close>

definition process_video :: "'a env \<Rightarrow> string \<Rightarrow> string \<Rightarrow> unit io" where
  "process_video env video_url output_text_file =
     bind_io (download_video env video_url) (\<lambda>video_data.
     bind_io (extract_audio env video_data) (\<lambda>audio_data.
     process_audio env audio_data output_text_file))"

section \<open>Auxiliary definitions\<close>

text \<open>
  The number of elements of \<open>range(0, n, st)\<close> for a positive stride: \<open>n / st\<close>
  rounded up, written with integer division.
\<close>

definition chunk_count :: "nat \<Rightarrow> nat \<Rightarrow> nat" where
  "chunk_count n st = nat (- ((- int n) div int st))"

text \<open>The text a model returns for a chunk (empty when the model fails on it).\<close>

definition text_of :: "model \<Rightarrow> buffer \<Rightarrow> string" where
  "text_of m chunk = (case m chunk of Inl _ \<Rightarrow> [] | Inr text \<Rightarrow> text)"

text \<open>
  A concrete run: a WAV buffer that decodes to 65 seconds of audio (30 s of sample 1,
  30 s of sample 2, 5 s of sample 3), an export that keeps the first sample of a chunk, so
  that the three chunks are three different buffers, and models that return \<open>a\<close>, \<open>b\<close>,
  \<open>c\<close> for them, or fail on some of them.
\<close>

definition ex_wav :: buffer where
  "ex_wav = BytesIO [82, 73, 70, 70]"

definition ex_audio :: "byte list" where
  "ex_audio = replicate 30000 1 @ replicate 30000 2 @ replicate 5000 3"

definition ex_model :: model where
  "ex_model chunk =
     (if chunk = BytesIO [1] then Inr ''a''
      else if chunk = BytesIO [2] then Inr ''b''
      else if chunk = BytesIO [3] then Inr ''c''
      else Inl ''no speech'')"

definition ex_model_fail2 :: model where
  "ex_model_fail2 chunk = (if chunk = BytesIO [2] then Inl ''boom'' else ex_model chunk)"

definition ex_model_fail_all :: model where
  "ex_model_fail_all chunk = Inl ''boom''"

definition ex_env :: "model \<Rightarrow> byte env" where
  "ex_env m =
     \<lparr>http_get = (\<lambda>url. Some [0]),
      ffmpeg_run = (\<lambda>video. Some ([82, 73, 70, 70], [])),
      from_file = (\<lambda>b. if b = ex_wav then Some ex_audio else None),
      export_wav = take 1,
      load_model = Some m,
      can_open = (\<lambda>path. True)\<rparr>"

definition ex_world :: world where
  "ex_world = \<lparr>files = [''out.txt'' \<mapsto> ''old''], trace = []\<rparr>"

text \<open>
  What a stage does to every world it is started in: its result \<open>r\<close>, the calls \<open>evs\<close>
  it appends to the trace, and the file it writes, if any. A stage with such a
  description reads nothing from the world.
\<close>

definition effect :: "'r io \<Rightarrow> error + 'r \<Rightarrow> event list \<Rightarrow> (string \<times> string) option \<Rightarrow> bool" where
  "effect f r evs wr =
     (\<forall>w. f w = (r, w\<lparr>trace := trace w @ evs,
                         files := (case wr of None \<Rightarrow> files w
                                   | Some (path, text) \<Rightarrow> (files w)(path \<mapsto> text))\<rparr>))"

section \<open>Ranges and slices\<close>

lemma map_upt_Suc_shift: "map f [0..<Suc m] = f 0 # map (\<lambda>k. f (Suc k)) [0..<m]"
  by (simp add: upt_conv_Cons map_Suc_upt [symmetric] del: upt_Suc)

text \<open>An ascending range lists the multiples of the stride below the bound.\<close>

lemma range_from_pos:
  "0 < step \<Longrightarrow>
   range_from i stop step = map (\<lambda>k. i + int k * step) [0..<nat (- ((i - stop) div step))]"
proof (induction i stop step rule: range_from.induct)
  case (1 i stop step)
  show ?case
  proof (cases "i < stop")
    case True
    have "i + step - stop = (i - stop) + step" by simp
    then have d: "(i + step - stop) div step = (i - stop) div step + 1"
      using 1(2) by (simp only: div_add_self2)
    have neg: "(i - stop) div step < 0"
      using True 1(2) by (simp add: pos_imp_zdiv_neg_iff)
    have n: "nat (- ((i - stop) div step)) = Suc (nat (- ((i + step - stop) div step)))"
      using d neg by simp
    have "range_from i stop step = i # range_from (i + step) stop step"
      using True 1(2) by (subst range_from.simps) simp
    also have "\<dots> = i # map (\<lambda>k. i + step + int k * step)
                            [0..<nat (- ((i + step - stop) div step))]"
      using 1(1) True 1(2) by simp
    also have "\<dots> = map (\<lambda>k. i + int k * step) [0..<nat (- ((i - stop) div step))]"
      unfolding n map_upt_Suc_shift by (simp add: algebra_simps)
    finally show ?thesis .
  next
    case False
    have "0 \<le> (i - stop) div step"
      using False 1(2) by (simp add: pos_imp_zdiv_nonneg_iff)
    then show ?thesis
      using False 1(2) by (subst range_from.simps) simp
  qed
qed

lemma range_from_neg: "step < 0 \<Longrightarrow> i \<le> stop \<Longrightarrow> range_from i stop step = []"
  by (subst range_from.simps) simp


lemma audio_slice_stride:
  assumes "0 < st"
  shows "audio_slice audio (int k * int st) (int k * int st + int st)
           = take st (drop (k * st) audio)"
proof (cases "k * st \<le> length audio")
  case True
  have a: "min (int k * int st) (int (length audio)) = int (k * st)"
    using True by (simp add: min_def flip: of_nat_mult)
  have b: "min (int k * int st + int st) (int (length audio))
             = int (min (k * st + st) (length audio))"
    by (simp add: min_def flip: of_nat_mult of_nat_add)
  have c: "min (k * st + st) (length audio) - k * st = min st (length (drop (k * st) audio))"
    using True by (auto simp: min_def)
  have d: "take (min st (length (drop (k * st) audio))) (drop (k * st) audio)
             = take st (drop (k * st) audio)"
    by (simp add: min_def)
  have "audio_slice audio (int k * int st) (int k * int st + int st)
          = take (min (k * st + st) (length audio) - k * st) (drop (k * st) audio)"
    unfolding audio_slice_def Let_def a b by (simp flip: of_nat_mult)
  then show ?thesis by (simp only: c d)
next
  case False
  have a: "min (int k * int st) (int (length audio)) = int (length audio)"
    using False by (simp add: min_def flip: of_nat_mult)
  have b: "min (int k * int st + int st) (int (length audio)) = int (length audio)"
    using False by (simp add: min_def flip: of_nat_mult of_nat_add)
  show ?thesis
    unfolding audio_slice_def Let_def a b using False by (simp flip: of_nat_mult)
qed





lemma audio_chunks_pos:
  assumes "0 < cd"
  shows "audio_chunks audio cd =
           Inr (map (\<lambda>k. take (nat (cd * 1000)) (drop (k * nat (cd * 1000)) audio))
                  [0..<chunk_count (length audio) (nat (cd * 1000))])"
proof -
  define st where "st = nat (cd * 1000)"
  have st: "0 < st" "int st = cd * 1000" using assms by (simp_all add: st_def)
  have r: "range_from 0 (int (length audio)) (int st)
             = map (\<lambda>k. int k * int st) [0..<chunk_count (length audio) st]"
    using st(1) by (simp add: range_from_pos chunk_count_def)
  have "audio_chunks audio cd =
          Inr (map (\<lambda>s. audio_slice audio s (s + int st)) (range_from 0 (int (length audio)) (int st)))"
    using st by (simp add: audio_chunks_def py_range_def)
  also have "\<dots> = Inr (map (\<lambda>k. take st (drop (k * st) audio)) [0..<chunk_count (length audio) st])"
    unfolding r using st(1) by (simp add: audio_slice_stride o_def)
  finally show ?thesis by (simp add: st_def)
qed








lemma split_audio_decoded:
  "from_file env audio_data = Some audio \<Longrightarrow>
   split_audio env audio_data cd w =
     (case audio_chunks audio cd of
        Inl e \<Rightarrow> (Inl e, emit (FromFile audio_data) w)
      | Inr chunks \<Rightarrow>
          (Inr (map (\<lambda>chunk. BytesIO (export_wav env chunk)) chunks), emit (FromFile audio_data) w))"
  by (simp add: split_audio_def Let_def)


lemma ex_audio_length: "length ex_audio = 65000"
  by (simp add: ex_audio_def)





section \<open>Effects of the stages\<close>

lemma effectD:
  "effect f r evs wr \<Longrightarrow>
   f w = (r, w\<lparr>trace := trace w @ evs,
                 files := (case wr of None \<Rightarrow> files w
                           | Some (path, text) \<Rightarrow> (files w)(path \<mapsto> text))\<rparr>)"
  by (simp add: effect_def)

lemma effect_bind_Inl:
  "effect m (Inl e) evs wr \<Longrightarrow> effect (bind_io m f) (Inl e) evs wr"
  by (simp add: effect_def bind_io_def)

lemma effect_bind_Inr:
  "effect m (Inr x) evs None \<Longrightarrow> effect (f x) r evs' wr \<Longrightarrow>
   effect (bind_io m f) r (evs @ evs') wr"
  by (cases wr) (auto simp: effect_def bind_io_def)

lemma effect_bind_written:
  "effect m (Inr x) evs (Some pt) \<Longrightarrow> effect (f x) r evs' None \<Longrightarrow>
   effect (bind_io m f) r (evs @ evs') (Some pt)"
  by (cases pt) (simp add: effect_def bind_io_def)

lemma effect_download_video:
  "effect (download_video env url)
     (case http_get env url of None \<Rightarrow> Inl DownloadError | Some content \<Rightarrow> Inr (BytesIO content))
     [HttpGet url] None"
  by (simp add: effect_def download_video_def emit_def Let_def split: option.splits)

lemma effect_extract_audio:
  "effect (extract_audio env video_data)
     (case video_data of
        BytesIO _ \<Rightarrow> Inl TypeError
      | Bytes video \<Rightarrow>
          (case ffmpeg_run env video of None \<Rightarrow> Inl DecodeError | Some _ \<Rightarrow> Inr (BytesIO [])))
     (case video_data of BytesIO _ \<Rightarrow> [] | Bytes video \<Rightarrow> [FfmpegRun video]) None"
  by (simp add: effect_def extract_audio_def emit_def Let_def split: option.splits buffer.splits)

lemma effect_split_audio:
  "effect (split_audio env audio_data cd)
     (case from_file env audio_data of
        None \<Rightarrow> Inl DecodeError
      | Some audio \<Rightarrow>
          (case audio_chunks audio cd of
             Inl e \<Rightarrow> Inl e
           | Inr chunks \<Rightarrow> Inr (map (\<lambda>chunk. BytesIO (export_wav env chunk)) chunks)))
     [FromFile audio_data] None"
  by (simp add: effect_def split_audio_def emit_def Let_def split: option.splits sum.splits)

lemma effect_Transcriber_init:
  "effect (Transcriber_init env)
     (case load_model env of None \<Rightarrow> Inl ModelLoadError | Some m \<Rightarrow> Inr m) [LoadModel] None"
  by (simp add: effect_def Transcriber_init_def emit_def Let_def split: option.splits)

lemma effect_transcribe:
  "effect (transcribe m chunk)
     (case m chunk of Inl detail \<Rightarrow> Inl (TranscriptionError detail) | Inr text \<Rightarrow> Inr text)
     [Transcribe chunk] None"
  by (simp add: effect_def transcribe_def emit_def Let_def split: sum.splits)

lemma effect_save_text:
  "effect (save_text env path text)
     (if can_open env path then Inr () else Inl OSError)
     [OpenWrite path] (if can_open env path then Some (path, text) else None)"
  by (simp add: effect_def save_text_def emit_def Let_def)

lemma effect_print_saved: "effect (print_saved path) (Inr ()) [PrintSaved path] None"
  by (simp add: effect_def print_saved_def emit_def)

lemma transcribe_loop_all:
  "\<forall>c\<in>set chunks. \<exists>t. m c = Inr t \<Longrightarrow>
   effect (transcribe_loop m chunks acc)
     (Inr (acc @ concat (map (\<lambda>c. text_of m c @ newline) chunks)))
     (map Transcribe chunks) None"
proof (induction chunks arbitrary: acc)
  case Nil
  show ?case by (simp add: effect_def)
next
  case (Cons c cs)
  then obtain t where t: "m c = Inr t" by auto
  have "effect (transcribe_loop m cs (acc @ t @ newline))
          (Inr ((acc @ t @ newline) @ concat (map (\<lambda>c. text_of m c @ newline) cs)))
          (map Transcribe cs) None"
    using Cons.IH [of "acc @ t @ newline"] Cons.prems by simp
  then show ?case
    using effectD [OF effect_transcribe, of m c] t
    by (simp add: effect_def text_of_def)
qed

lemma transcribe_loop_first_failure:
  "\<forall>c\<in>set pre. \<exists>t. m c = Inr t \<Longrightarrow> m c = Inl d \<Longrightarrow>
   effect (transcribe_loop m (pre @ c # post) acc)
     (Inl (TranscriptionError d)) (map Transcribe (pre @ [c])) None"
proof (induction pre arbitrary: acc)
  case Nil
  then show ?case
    using effectD [OF effect_transcribe, of m c] by (simp add: effect_def)
next
  case (Cons p ps)
  then obtain t where t: "m p = Inr t" by auto
  have "effect (transcribe_loop m (ps @ c # post) (acc @ t @ newline))
          (Inl (TranscriptionError d)) (map Transcribe (ps @ [c])) None"
    using Cons.IH [of "acc @ t @ newline"] Cons.prems by simp
  then show ?case
    using effectD [OF effect_transcribe, of m p] t
    by (simp add: effect_def)
qed

lemma first_failure_split:
  "(\<forall>c\<in>set chunks. \<exists>t. m c = Inr t) \<or>
   (\<exists>pre c post d. chunks = pre @ c # post \<and> (\<forall>p\<in>set pre. \<exists>t. m p = Inr t) \<and> m c = Inl d)"
proof (cases "\<exists>c\<in>set chunks. isl (m c)")
  case True
  then obtain pre c post where s: "chunks = pre @ c # post" "isl (m c)" "\<forall>p\<in>set pre. \<not> isl (m p)"
    using split_list_first_prop [of chunks "\<lambda>c. isl (m c)"] by blast
  from s(2) obtain d where "m c = Inl d" by (cases "m c") auto
  moreover have "\<forall>p\<in>set pre. \<exists>t. m p = Inr t"
  proof
    fix p assume "p \<in> set pre"
    then have "\<not> isl (m p)" using s(3) by simp
    then show "\<exists>t. m p = Inr t" by (cases "m p") auto
  qed
  ultimately show ?thesis using s(1) by blast
next
  case False
  have "\<forall>c\<in>set chunks. \<exists>t. m c = Inr t"
  proof
    fix c assume "c \<in> set chunks"
    then have "\<not> isl (m c)" using False by simp
    then show "\<exists>t. m c = Inr t" by (cases "m c") auto
  qed
  then show ?thesis by simp
qed

lemma split_audio_result:
  "fst (split_audio env audio_data cd w) = r \<Longrightarrow>
   effect (split_audio env audio_data cd) r [FromFile audio_data] None"
  using effect_split_audio [of env audio_data cd]
  by (simp add: effectD [OF effect_split_audio])

lemma process_audio_split_fails:
  assumes "effect (split_audio env audio_data 30) (Inl e) [FromFile audio_data] None"
  shows "effect (process_audio env audio_data out) (Inl e) [FromFile audio_data] None"
  unfolding process_audio_def by (rule effect_bind_Inl [OF assms])

lemma process_audio_no_model:
  assumes "effect (split_audio env audio_data 30) (Inr chunks) [FromFile audio_data] None"
    and "load_model env = None"
  shows "effect (process_audio env audio_data out) (Inl ModelLoadError)
           [FromFile audio_data, LoadModel] None"
proof -
  have i: "effect (Transcriber_init env) (Inl ModelLoadError) [LoadModel] None"
    using effect_Transcriber_init [of env] assms(2) by simp
  have "effect (process_audio env audio_data out) (Inl ModelLoadError)
           ([FromFile audio_data] @ [LoadModel]) None"
    unfolding process_audio_def
    by (rule effect_bind_Inr [OF assms(1)]) (rule effect_bind_Inl [OF i])
  then show ?thesis by simp
qed

lemma process_audio_chunk_fails:
  assumes "effect (split_audio env audio_data 30) (Inr (pre @ c # post)) [FromFile audio_data] None"
    and "load_model env = Some m"
    and "\<forall>p\<in>set pre. \<exists>t. m p = Inr t" and "m c = Inl d"
  shows "effect (process_audio env audio_data out) (Inl (TranscriptionError d))
           (FromFile audio_data # LoadModel # map Transcribe (pre @ [c])) None"
proof -
  have i: "effect (Transcriber_init env) (Inr m) [LoadModel] None"
    using effect_Transcriber_init [of env] assms(2) by simp
  have "effect (process_audio env audio_data out) (Inl (TranscriptionError d))
           ([FromFile audio_data] @ [LoadModel] @ map Transcribe (pre @ [c])) None"
    unfolding process_audio_def
    by (rule effect_bind_Inr [OF assms(1)], rule effect_bind_Inr [OF i],
        rule effect_bind_Inl [OF transcribe_loop_first_failure [OF assms(3,4)]])
  then show ?thesis by simp
qed

lemma process_audio_all_succeed:
  assumes "effect (split_audio env audio_data 30) (Inr chunks) [FromFile audio_data] None"
    and "load_model env = Some m"
    and "\<forall>c\<in>set chunks. \<exists>t. m c = Inr t"
  shows "can_open env out \<Longrightarrow>
         effect (process_audio env audio_data out) (Inr ())
           (FromFile audio_data # LoadModel # map Transcribe chunks @ [OpenWrite out, PrintSaved out])
           (Some (out, concat (map (\<lambda>c. text_of m c @ newline) chunks)))"
    and "\<not> can_open env out \<Longrightarrow>
         effect (process_audio env audio_data out) (Inl OSError)
           (FromFile audio_data # LoadModel # map Transcribe chunks @ [OpenWrite out]) None"
proof -
  let ?text = "concat (map (\<lambda>c. text_of m c @ newline) chunks)"
  have i: "effect (Transcriber_init env) (Inr m) [LoadModel] None"
    using effect_Transcriber_init [of env] assms(2) by simp
  have l: "effect (transcribe_loop m chunks []) (Inr ?text) (map Transcribe chunks) None"
    using transcribe_loop_all [OF assms(3), of "[]"] by simp
  {
    assume o: "can_open env out"
    have s: "effect (save_text env out ?text) (Inr ()) [OpenWrite out] (Some (out, ?text))"
      using effect_save_text [of env out ?text] o by simp
    have "effect (process_audio env audio_data out) (Inr ())
           ([FromFile audio_data] @ [LoadModel] @ map Transcribe chunks @ [OpenWrite out] @ [PrintSaved out])
           (Some (out, ?text))"
      unfolding process_audio_def
      by (rule effect_bind_Inr [OF assms(1)], rule effect_bind_Inr [OF i],
          rule effect_bind_Inr [OF l], rule effect_bind_written [OF s],
          rule effect_print_saved)
    then show "effect (process_audio env audio_data out) (Inr ())
           (FromFile audio_data # LoadModel # map Transcribe chunks @ [OpenWrite out, PrintSaved out])
           (Some (out, ?text))"
      by simp
  }
  {
    assume o: "\<not> can_open env out"
    have s: "effect (save_text env out ?text) (Inl OSError) [OpenWrite out] None"
      using effect_save_text [of env out ?text] o by simp
    have "effect (process_audio env audio_data out) (Inl OSError)
           ([FromFile audio_data] @ [LoadModel] @ map Transcribe chunks @ [OpenWrite out]) None"
      unfolding process_audio_def
      by (rule effect_bind_Inr [OF assms(1)], rule effect_bind_Inr [OF i],
          rule effect_bind_Inr [OF l], rule effect_bind_Inl [OF s])
    then show "effect (process_audio env audio_data out) (Inl OSError)
           (FromFile audio_data # LoadModel # map Transcribe chunks @ [OpenWrite out]) None"
      by simp
  }
qed

text \<open>
  \<open>process_video\<close> as written: \<open>download_video\<close> hands an \<open>io.BytesIO\<close> object to
  \<open>AudioExtractor\<close>, whose \<open>io.BytesIO(self.video_data)\<close> then raises \<open>TypeError\<close>. So
  every run ends after the download, with \<open>DownloadError\<close> or \<open>TypeError\<close>, and the later
  steps are reached only when they are started from an audio buffer (\<open>process_audio\<close>).
\<close>

lemma process_video_effect:
  "effect (process_video env url out)
     (case http_get env url of None \<Rightarrow> Inl DownloadError | Some content \<Rightarrow> Inl TypeError)
     [HttpGet url] None"
proof (cases "http_get env url")
  case None
  then have "effect (download_video env url) (Inl DownloadError) [HttpGet url] None"
    using effect_download_video [of env url] by simp
  then show ?thesis
    unfolding process_video_def using None by (simp add: effect_bind_Inl)
next
  case (Some content)
  then have d: "effect (download_video env url) (Inr (BytesIO content)) [HttpGet url] None"
    using effect_download_video [of env url] by simp
  have e: "effect (extract_audio env (BytesIO content)) (Inl TypeError) [] None"
    using effect_extract_audio [of env "BytesIO content"] by simp
  have "effect (process_video env url out) (Inl TypeError) ([HttpGet url] @ []) None"
    unfolding process_video_def
    by (rule effect_bind_Inr [OF d], rule effect_bind_Inl [OF e])
  then show ?thesis using Some by simp
qed

section \<open>Segmentation\<close>





section \<open>The example run\<close>

lemma ex_chunk_count: "chunk_count 65000 30000 = 3"
  by (simp add: chunk_count_def)

lemma upt_3: "[0..<3] = [0, 1, 2]"
  by (simp add: numeral_3_eq_3)

lemma ex_audio_chunks:
  "audio_chunks ex_audio 30 = Inr [replicate 30000 1, replicate 30000 2, replicate 5000 3]"
  by (simp add: audio_chunks_pos ex_audio_length ex_chunk_count upt_3) (simp add: ex_audio_def)

lemma ex_split_audio:
  "effect (split_audio (ex_env m) ex_wav 30) (Inr [BytesIO [1], BytesIO [2], BytesIO [3]])
     [FromFile ex_wav] None"
  using effect_split_audio [of "ex_env m" ex_wav 30]
  by (simp add: ex_env_def ex_audio_chunks)

lemma world_trace_only:
  "effect f r evs None \<Longrightarrow> f w = (r, w\<lparr>trace := trace w @ evs\<rparr>)"
  by (simp add: effect_def)

lemma take_Suc_split:
  "k < length xs \<Longrightarrow> xs = take k xs @ xs ! k # drop (Suc k) xs"
  by (simp add: id_take_nth_drop)

section \<open>Orchestration\<close>

text \<open>
  Claim C2 says that a run in which exactly one chunk fails is not aborted: the failure is
  recorded, the next chunk is processed, and the run reports success. The loop has no
  handler around \<open>transcribe\<close>, so this does not hold. In the example run the second of
  three chunks fails: the run ends with that chunk's error, and the third chunk is never
  transcribed.
\<close>

theorem one_failed_chunk_aborts_example:
  "process_audio (ex_env ex_model_fail2) ex_wav ''out.txt'' ex_world =
     (Inl (TranscriptionError ''boom''),
      ex_world\<lparr>trace := [FromFile ex_wav, LoadModel, Transcribe (BytesIO [1]), Transcribe (BytesIO [2])]\<rparr>)"
proof -
  have s: "effect (split_audio (ex_env ex_model_fail2) ex_wav 30)
             (Inr ([BytesIO [1]] @ BytesIO [2] # [BytesIO [3]])) [FromFile ex_wav] None"
    using ex_split_audio [of ex_model_fail2] by simp
  have l: "load_model (ex_env ex_model_fail2) = Some ex_model_fail2"
    by (simp add: ex_env_def)
  have ok: "\<forall>p\<in>set [BytesIO [1]]. \<exists>t. ex_model_fail2 p = Inr t"
    by (simp add: ex_model_fail2_def ex_model_def)
  have bad: "ex_model_fail2 (BytesIO [2]) = Inl ''boom''"
    by (simp add: ex_model_fail2_def)
  show ?thesis
    using world_trace_only [OF process_audio_chunk_fails [OF s l ok bad], of "''out.txt''" ex_world]
    by (simp add: ex_world_def)
qed

text \<open>
  Claim C2, amended. For every chunk sequence in which chunk \<open>k\<close> fails and all other
  chunks succeed, the run is aborted at chunk \<open>k\<close>: the chunks up to \<open>k\<close> are
  transcribed in order, the error of chunk \<open>k\<close> ends the run with its detail, no chunk
  after \<open>k\<close> is transcribed, and nothing but the trace changes (no file is written,
  no success is reported).
\<close>

theorem failed_chunk_aborts_run:
  assumes "fst (split_audio env audio_data 30 w) = Inr chunks"
    and "load_model env = Some m"
    and "k < length chunks"
    and "m (chunks ! k) = Inl d"
    and "\<forall>i<length chunks. i \<noteq> k \<longrightarrow> (\<exists>t. m (chunks ! i) = Inr t)"
  shows "process_audio env audio_data out w =
           (Inl (TranscriptionError d),
            w\<lparr>trace := trace w @ FromFile audio_data # LoadModel #
                          map Transcribe (take (Suc k) chunks)\<rparr>)"
proof -
  define pre where "pre = take k chunks"
  define post where "post = drop (Suc k) chunks"
  have c: "chunks = pre @ chunks ! k # post"
    unfolding pre_def post_def by (rule take_Suc_split [OF assms(3)])
  have s: "effect (split_audio env audio_data 30) (Inr (pre @ chunks ! k # post))
             [FromFile audio_data] None"
    using split_audio_result [OF assms(1)] c by simp
  have ok: "\<forall>p\<in>set pre. \<exists>t. m p = Inr t"
  proof
    fix p assume "p \<in> set pre"
    then obtain i where i: "i < k" "p = chunks ! i"
      using assms(3) by (auto simp: pre_def in_set_conv_nth)
    then show "\<exists>t. m p = Inr t" using assms(3,5) by simp
  qed
  have t: "pre @ [chunks ! k] = take (Suc k) chunks"
    using assms(3) by (simp add: pre_def take_Suc_conv_app_nth)
  show ?thesis
    using world_trace_only [OF process_audio_chunk_fails [OF s assms(2) ok assms(4)], of out w]
    by (simp only: t)
qed

text \<open>The amended claim at the example run, with \<open>k = 1\<close>.\<close>

theorem failed_chunk_aborts_run_witness:
  "fst (split_audio (ex_env ex_model_fail2) ex_wav 30 ex_world) =
     Inr [BytesIO [1], BytesIO [2], BytesIO [3]]
   \<and> load_model (ex_env ex_model_fail2) = Some ex_model_fail2
   \<and> ex_model_fail2 (BytesIO [1]) = Inr ''a''
   \<and> ex_model_fail2 (BytesIO [2]) = Inl ''boom''
   \<and> ex_model_fail2 (BytesIO [3]) = Inr ''c''
   \<and> fst (process_audio (ex_env ex_model_fail2) ex_wav ''out.txt'' ex_world) =
       Inl (TranscriptionError ''boom'')
   \<and> files (snd (process_audio (ex_env ex_model_fail2) ex_wav ''out.txt'' ex_world)) ''out.txt'' =
       Some ''old''"
proof -
  let ?chunks = "[BytesIO [1], BytesIO [2], BytesIO [3]]"
  have s: "fst (split_audio (ex_env ex_model_fail2) ex_wav 30 ex_world) = Inr ?chunks"
    by (simp add: world_trace_only [OF ex_split_audio])
  have l: "load_model (ex_env ex_model_fail2) = Some ex_model_fail2"
    by (simp add: ex_env_def)
  have m1: "ex_model_fail2 (BytesIO [1]) = Inr ''a''"
    and m2: "ex_model_fail2 (BytesIO [2]) = Inl ''boom''"
    and m3: "ex_model_fail2 (BytesIO [3]) = Inr ''c''"
    by (simp_all add: ex_model_fail2_def ex_model_def)
  have k: "(1::nat) < length ?chunks" by simp
  have bad: "ex_model_fail2 (?chunks ! 1) = Inl ''boom''" using m2 by simp
  have others: "\<forall>i<length ?chunks. i \<noteq> 1 \<longrightarrow> (\<exists>t. ex_model_fail2 (?chunks ! i) = Inr t)"
    using m1 m3 by (auto simp: less_Suc_eq numeral_3_eq_3)
  have "process_audio (ex_env ex_model_fail2) ex_wav ''out.txt'' ex_world =
           (Inl (TranscriptionError ''boom''),
            ex_world\<lparr>trace := trace ex_world @ FromFile ex_wav # LoadModel #
                          map Transcribe (take (Suc 1) ?chunks)\<rparr>)"
    by (rule failed_chunk_aborts_run [OF s l k bad others])
  then show ?thesis using s l m1 m2 m3 by (simp add: ex_world_def)
qed

lemma written_file:
  "effect f r evs (Some (path, text)) \<Longrightarrow>
   fst (f w) = r \<and> files (snd (f w)) = (files w)(path \<mapsto> text)
   \<and> trace (snd (f w)) = trace w @ evs"
  by (simp add: effect_def)

lemma ex_fail2_loop:
  "effect (transcribe_loop ex_model_fail2 [BytesIO [1], BytesIO [2], BytesIO [3]] [])
     (Inl (TranscriptionError ''boom'')) [Transcribe (BytesIO [1]), Transcribe (BytesIO [2])] None"
  using transcribe_loop_first_failure
          [of "[BytesIO [1]]" ex_model_fail2 "BytesIO [2]" "''boom''" "[BytesIO [3]]" "[]"]
  by (simp add: ex_model_fail2_def ex_model_def)

lemma three_results:
  assumes "map m chunks = [Inr t1, Inr t2, Inr t3]"
  shows "\<forall>c\<in>set chunks. \<exists>t. m c = Inr t"
    and "concat (map (\<lambda>c. text_of m c @ newline) chunks) = t1 @ newline @ t2 @ newline @ t3 @ newline"
proof -
  obtain c1 c2 c3 where c: "chunks = [c1, c2, c3]" "m c1 = Inr t1" "m c2 = Inr t2" "m c3 = Inr t3"
    using assms by (auto simp: map_eq_Cons_conv)
  show "\<forall>c\<in>set chunks. \<exists>t. m c = Inr t" using c by simp
  show "concat (map (\<lambda>c. text_of m c @ newline) chunks) = t1 @ newline @ t2 @ newline @ t3 @ newline"
    using c by (simp add: text_of_def)
qed

text \<open>
  Claim C3 says that for every chunk sequence the final transcript is the concatenation
  of the text of the successful segments only. In the example run with a failing second
  chunk the successful segments would give \<open>a\<close>, newline, \<open>c\<close>, newline; the loop
  returns no transcript at all, but the error of the second chunk.
\<close>

theorem no_transcript_of_successful_segments_example:
  "fst (transcribe_loop ex_model_fail2 [BytesIO [1], BytesIO [2], BytesIO [3]] [] ex_world) =
     Inl (TranscriptionError ''boom'')
   \<and> concat (map (\<lambda>c. text_of ex_model_fail2 c @ newline)
        (filter (\<lambda>c. \<not> isl (ex_model_fail2 c)) [BytesIO [1], BytesIO [2], BytesIO [3]])) =
     [CHR ''a'', CHR 0x0A, CHR ''c'', CHR 0x0A]"
proof -
  have "fst (transcribe_loop ex_model_fail2 [BytesIO [1], BytesIO [2], BytesIO [3]] [] ex_world) =
     Inl (TranscriptionError ''boom'')"
    by (simp only: world_trace_only [OF ex_fail2_loop] fst_conv)
  moreover have "concat (map (\<lambda>c. text_of ex_model_fail2 c @ newline)
        (filter (\<lambda>c. \<not> isl (ex_model_fail2 c)) [BytesIO [1], BytesIO [2], BytesIO [3]])) =
     [CHR ''a'', CHR 0x0A, CHR ''c'', CHR 0x0A]"
    by (simp add: ex_model_fail2_def ex_model_def text_of_def newline_def)
  ultimately show ?thesis by (rule conjI)
qed

text \<open>
  Claim C3, amended. For every chunk sequence whose chunks are all transcribed
  successfully, the final transcript is the concatenation, in chunk order, of every
  chunk's text followed by a single newline, and the chunks are transcribed in that
  order. In particular a 65 second buffer split at 30 seconds gives three chunks of
  30, 30 and 5 seconds, and when the engine returns \<open>a\<close>, \<open>b\<close>, \<open>c\<close> for them the run
  succeeds and the output file holds \<open>a\<close>, \<open>b\<close>, \<open>c\<close>, each followed by a newline.
\<close>

theorem transcript_joins_all_chunks:
  "((\<forall>c\<in>set chunks. \<exists>t. m c = Inr t) \<longrightarrow>
      transcribe_loop m chunks [] w =
        (Inr (concat (map (\<lambda>c. text_of m c @ newline) chunks)),
         w\<lparr>trace := trace w @ map Transcribe chunks\<rparr>))
   \<and> (length audio = 65000 \<longrightarrow>
        (\<exists>slices. audio_chunks audio 30 = Inr slices \<and> map length slices = [30000, 30000, 5000]))
   \<and> (fst (split_audio env audio_data 30 w) = Inr chunks \<and> load_model env = Some m
        \<and> map m chunks = [Inr ''a'', Inr ''b'', Inr ''c''] \<and> can_open env out \<longrightarrow>
        fst (process_audio env audio_data out w) = Inr ()
        \<and> files (snd (process_audio env audio_data out w)) out =
            Some [CHR ''a'', CHR 0x0A, CHR ''b'', CHR 0x0A, CHR ''c'', CHR 0x0A])"
proof (intro conjI impI)
  assume "\<forall>c\<in>set chunks. \<exists>t. m c = Inr t"
  then show "transcribe_loop m chunks [] w =
        (Inr (concat (map (\<lambda>c. text_of m c @ newline) chunks)),
         w\<lparr>trace := trace w @ map Transcribe chunks\<rparr>)"
    using world_trace_only [OF transcribe_loop_all, of chunks m "[]" w] by simp
next
  assume "length audio = 65000"
  then show "\<exists>slices. audio_chunks audio 30 = Inr slices \<and> map length slices = [30000, 30000, 5000]"
    by (simp add: audio_chunks_pos ex_chunk_count upt_3)
next
  assume a: "fst (split_audio env audio_data 30 w) = Inr chunks \<and> load_model env = Some m
        \<and> map m chunks = [Inr ''a'', Inr ''b'', Inr ''c''] \<and> can_open env out"
  then have "fst (split_audio env audio_data 30 w) = Inr chunks" by simp
  then have s: "effect (split_audio env audio_data 30) (Inr chunks) [FromFile audio_data] None"
    by (rule split_audio_result)
  have l: "load_model env = Some m" and r: "map m chunks = [Inr ''a'', Inr ''b'', Inr ''c'']"
    and o: "can_open env out"
    using a by simp_all
  note w = written_file [OF process_audio_all_succeed(1) [OF s l three_results(1) [OF r] o], of w]
  show "fst (process_audio env audio_data out w) = Inr ()" using w by simp
  show "files (snd (process_audio env audio_data out w)) out =
            Some [CHR ''a'', CHR 0x0A, CHR ''b'', CHR 0x0A, CHR ''c'', CHR 0x0A]"
    using w by (simp only: three_results(2) [OF r]) (simp add: newline_def)
qed

text \<open>The amended claim at the example run with the model that succeeds on all chunks.\<close>

theorem transcript_joins_all_chunks_witness:
  "length ex_audio = 65000
   \<and> map length [replicate 30000 (1::byte), replicate 30000 2, replicate 5000 3] = [30000, 30000, 5000]
   \<and> audio_chunks ex_audio 30 = Inr [replicate 30000 1, replicate 30000 2, replicate 5000 3]
   \<and> fst (split_audio (ex_env ex_model) ex_wav 30 ex_world) = Inr [BytesIO [1], BytesIO [2], BytesIO [3]]
   \<and> map ex_model [BytesIO [1], BytesIO [2], BytesIO [3]] = [Inr ''a'', Inr ''b'', Inr ''c'']
   \<and> transcribe_loop ex_model [BytesIO [1], BytesIO [2], BytesIO [3]] [] ex_world =
       (Inr [CHR ''a'', CHR 0x0A, CHR ''b'', CHR 0x0A, CHR ''c'', CHR 0x0A],
        ex_world\<lparr>trace := [Transcribe (BytesIO [1]), Transcribe (BytesIO [2]), Transcribe (BytesIO [3])]\<rparr>)
   \<and> fst (process_audio (ex_env ex_model) ex_wav ''out.txt'' ex_world) = Inr ()
   \<and> files (snd (process_audio (ex_env ex_model) ex_wav ''out.txt'' ex_world)) ''out.txt'' =
       Some [CHR ''a'', CHR 0x0A, CHR ''b'', CHR 0x0A, CHR ''c'', CHR 0x0A]"
proof -
  let ?chunks = "[BytesIO [1], BytesIO [2], BytesIO [3]]"
  note t = transcript_joins_all_chunks
             [of ?chunks ex_model ex_world ex_audio "ex_env ex_model" ex_wav "''out.txt''"]
  have s: "fst (split_audio (ex_env ex_model) ex_wav 30 ex_world) = Inr ?chunks"
    by (simp add: world_trace_only [OF ex_split_audio])
  have l: "load_model (ex_env ex_model) = Some ex_model" and o: "can_open (ex_env ex_model) ''out.txt''"
    by (simp_all add: ex_env_def)
  have r: "map ex_model ?chunks = [Inr ''a'', Inr ''b'', Inr ''c'']"
    by (simp add: ex_model_def)
  then have ok: "\<forall>c\<in>set ?chunks. \<exists>t. ex_model c = Inr t" by simp
  have tx: "concat (map (\<lambda>c. text_of ex_model c @ newline) ?chunks) =
              [CHR ''a'', CHR 0x0A, CHR ''b'', CHR 0x0A, CHR ''c'', CHR 0x0A]"
    by (simp add: text_of_def ex_model_def newline_def)
  have a0: "transcribe_loop ex_model ?chunks [] ex_world =
       (Inr (concat (map (\<lambda>c. text_of ex_model c @ newline) ?chunks)),
        ex_world\<lparr>trace := trace ex_world @ map Transcribe ?chunks\<rparr>)"
    by (rule t [THEN conjunct1, THEN mp, OF ok])
  have tr: "ex_world\<lparr>trace := trace ex_world @ map Transcribe ?chunks\<rparr> =
        ex_world\<lparr>trace := [Transcribe (BytesIO [1]), Transcribe (BytesIO [2]), Transcribe (BytesIO [3])]\<rparr>"
    by (simp add: ex_world_def)
  have a: "transcribe_loop ex_model ?chunks [] ex_world =
       (Inr [CHR ''a'', CHR 0x0A, CHR ''b'', CHR 0x0A, CHR ''c'', CHR 0x0A],
        ex_world\<lparr>trace := [Transcribe (BytesIO [1]), Transcribe (BytesIO [2]), Transcribe (BytesIO [3])]\<rparr>)"
    by (simp only: a0 tx tr)
  have b: "audio_chunks ex_audio 30 = Inr [replicate 30000 1, replicate 30000 2, replicate 5000 3]"
    by (rule ex_audio_chunks)
  have c: "fst (process_audio (ex_env ex_model) ex_wav ''out.txt'' ex_world) = Inr ()
        \<and> files (snd (process_audio (ex_env ex_model) ex_wav ''out.txt'' ex_world)) ''out.txt'' =
            Some [CHR ''a'', CHR 0x0A, CHR ''b'', CHR 0x0A, CHR ''c'', CHR 0x0A]"
    using t [THEN conjunct2, THEN conjunct2, THEN mp] s l r o by blast
  have d: "map length [replicate 30000 (1::byte), replicate 30000 2, replicate 5000 3] =
             [30000, 30000, 5000]"
    by simp
  from ex_audio_length d b s r a c show ?thesis by (intro conjI) simp_all
qed

text \<open>
  Claim C5 says that a run in which every chunk fails ends with \<open>TranscriptionFailed\<close>.
  No such error exists in the source: in the example run in which the model fails on
  every chunk, the run ends with the first chunk's own error.
\<close>

theorem all_chunks_fail_example:
  "fst (process_audio (ex_env ex_model_fail_all) ex_wav ''out.txt'' ex_world) =
     Inl (TranscriptionError ''boom'')
   \<and> fst (process_audio (ex_env ex_model_fail_all) ex_wav ''out.txt'' ex_world) \<noteq>
     Inl TranscriptionFailed"
proof -
  have s: "effect (split_audio (ex_env ex_model_fail_all) ex_wav 30)
             (Inr ([] @ BytesIO [1] # [BytesIO [2], BytesIO [3]])) [FromFile ex_wav] None"
    using ex_split_audio [of ex_model_fail_all] by simp
  have l: "load_model (ex_env ex_model_fail_all) = Some ex_model_fail_all"
    by (simp add: ex_env_def)
  have ok: "\<forall>p\<in>set []. \<exists>t. ex_model_fail_all p = Inr t" by simp
  have bad: "ex_model_fail_all (BytesIO [1]) = Inl ''boom''"
    by (simp add: ex_model_fail_all_def)
  have "fst (process_audio (ex_env ex_model_fail_all) ex_wav ''out.txt'' ex_world) =
     Inl (TranscriptionError ''boom'')"
    by (simp only: world_trace_only [OF process_audio_chunk_fails [OF s l ok bad]] fst_conv)
  then show ?thesis by simp
qed

text \<open>
  Claim C5, amended. For every non-empty chunk sequence in which every chunk's
  transcription fails, the run fails with the transcription error of the first chunk
  (not with an aggregate \<open>TranscriptionFailed\<close>), after the first chunk has been
  attempted and no other, and no file is written.
\<close>

theorem all_chunks_fail_aborts_at_first:
  assumes "fst (split_audio env audio_data 30 w) = Inr chunks"
    and "load_model env = Some m"
    and "chunks \<noteq> []"
    and "\<forall>c\<in>set chunks. \<exists>d. m c = Inl d"
  shows "\<exists>d. m (hd chunks) = Inl d
           \<and> process_audio env audio_data out w =
               (Inl (TranscriptionError d),
                w\<lparr>trace := trace w @ [FromFile audio_data, LoadModel, Transcribe (hd chunks)]\<rparr>)
           \<and> fst (process_audio env audio_data out w) \<noteq> Inl TranscriptionFailed
           \<and> files (snd (process_audio env audio_data out w)) = files w"
proof -
  obtain c post where c: "chunks = [] @ c # post" using assms(3) by (cases chunks) auto
  then obtain d where d: "m c = Inl d" using assms(4) by auto
  have s: "effect (split_audio env audio_data 30) (Inr ([] @ c # post)) [FromFile audio_data] None"
    using split_audio_result [OF assms(1)] c by simp
  have ok: "\<forall>p\<in>set []. \<exists>t. m p = Inr t" by simp
  have r: "process_audio env audio_data out w =
               (Inl (TranscriptionError d),
                w\<lparr>trace := trace w @ [FromFile audio_data, LoadModel, Transcribe (hd chunks)]\<rparr>)"
    using world_trace_only [OF process_audio_chunk_fails [OF s assms(2) ok d], of out w] c
    by simp
  have "m (hd chunks) = Inl d" using c d by simp
  moreover have "fst (process_audio env audio_data out w) \<noteq> Inl TranscriptionFailed"
    by (simp add: r)
  moreover have "files (snd (process_audio env audio_data out w)) = files w"
    by (simp add: r)
  ultimately show ?thesis using r by blast
qed

text \<open>The amended claim at the example run with the model that fails on every chunk.\<close>

theorem all_chunks_fail_aborts_at_first_witness:
  "fst (split_audio (ex_env ex_model_fail_all) ex_wav 30 ex_world) =
     Inr [BytesIO [1], BytesIO [2], BytesIO [3]]
   \<and> load_model (ex_env ex_model_fail_all) = Some ex_model_fail_all
   \<and> list_all (\<lambda>c. ex_model_fail_all c = Inl ''boom'') [BytesIO [1], BytesIO [2], BytesIO [3]]
   \<and> process_audio (ex_env ex_model_fail_all) ex_wav ''out.txt'' ex_world =
       (Inl (TranscriptionError ''boom''),
        ex_world\<lparr>trace := [FromFile ex_wav, LoadModel, Transcribe (BytesIO [1])]\<rparr>)
   \<and> files (snd (process_audio (ex_env ex_model_fail_all) ex_wav ''out.txt'' ex_world)) ''out.txt'' =
       Some ''old''"
proof -
  let ?chunks = "[BytesIO [1], BytesIO [2], BytesIO [3]]"
  have s: "fst (split_audio (ex_env ex_model_fail_all) ex_wav 30 ex_world) = Inr ?chunks"
    by (simp add: world_trace_only [OF ex_split_audio])
  have l: "load_model (ex_env ex_model_fail_all) = Some ex_model_fail_all"
    by (simp add: ex_env_def)
  have ne: "?chunks \<noteq> []" by simp
  have f: "\<forall>c\<in>set ?chunks. \<exists>d. ex_model_fail_all c = Inl d"
    by (simp add: ex_model_fail_all_def)
  obtain d where d: "ex_model_fail_all (hd ?chunks) = Inl d"
    "process_audio (ex_env ex_model_fail_all) ex_wav ''out.txt'' ex_world =
               (Inl (TranscriptionError d),
                ex_world\<lparr>trace := trace ex_world @ [FromFile ex_wav, LoadModel, Transcribe (hd ?chunks)]\<rparr>)"
    using all_chunks_fail_aborts_at_first [OF s l ne f, of "''out.txt''"] by blast
  have "d = ''boom''" using d(1) by (simp add: ex_model_fail_all_def)
  then have p: "process_audio (ex_env ex_model_fail_all) ex_wav ''out.txt'' ex_world =
       (Inl (TranscriptionError ''boom''),
        ex_world\<lparr>trace := [FromFile ex_wav, LoadModel, Transcribe (BytesIO [1])]\<rparr>)"
    using d(2) by (simp add: ex_world_def)
  have a: "list_all (\<lambda>c. ex_model_fail_all c = Inl ''boom'') ?chunks"
    by (simp add: ex_model_fail_all_def)
  have fl: "files (snd (process_audio (ex_env ex_model_fail_all) ex_wav ''out.txt'' ex_world)) ''out.txt'' =
       Some ''old''"
    by (simp add: p) (simp add: ex_world_def)
  from s l a p fl show ?thesis by (intro conjI)
qed

lemma split_audio_some_effect:
  "\<exists>r. effect (split_audio env audio_data cd) r [FromFile audio_data] None"
  using effect_split_audio [of env audio_data cd] by blast

lemma transcribe_loop_some_effect:
  "\<exists>r evs. effect (transcribe_loop m chunks acc) r evs None"
proof -
  consider (ok) "\<forall>c\<in>set chunks. \<exists>t. m c = Inr t"
    | (bad) pre c post d where "chunks = pre @ c # post" "\<forall>p\<in>set pre. \<exists>t. m p = Inr t" "m c = Inl d"
    using first_failure_split [of chunks m] by blast
  then show ?thesis
  proof cases
    case ok
    then show ?thesis using transcribe_loop_all [of chunks m acc] by blast
  next
    case bad
    then show ?thesis using transcribe_loop_first_failure [of pre m c d post acc] by blast
  qed
qed

lemma process_audio_outcome:
  "\<exists>r evs wr. effect (process_audio env audio_data out) r evs wr \<and>
     ((\<exists>e. r = Inl e \<and> wr = None) \<or>
      (r = Inr () \<and>
       (\<exists>chunks m. effect (split_audio env audio_data 30) (Inr chunks) [FromFile audio_data] None
          \<and> load_model env = Some m \<and> (\<forall>c\<in>set chunks. \<exists>t. m c = Inr t)
          \<and> wr = Some (out, concat (map (\<lambda>c. text_of m c @ newline) chunks)))))"
proof -
  obtain r0 where r0: "effect (split_audio env audio_data 30) r0 [FromFile audio_data] None"
    using split_audio_some_effect by blast
  show ?thesis
  proof (cases r0)
    case (Inl e)
    then show ?thesis using process_audio_split_fails [of env audio_data e out] r0 by blast
  next
    case (Inr chunks)
    note s = r0 [unfolded Inr]
    show ?thesis
    proof (cases "load_model env")
      case None
      then show ?thesis using process_audio_no_model [OF s, of out] by blast
    next
      case (Some m)
      consider (ok) "\<forall>c\<in>set chunks. \<exists>t. m c = Inr t"
        | (bad) pre c post d where "chunks = pre @ c # post" "\<forall>p\<in>set pre. \<exists>t. m p = Inr t" "m c = Inl d"
        using first_failure_split [of chunks m] by blast
      then show ?thesis
      proof cases
        case ok
        show ?thesis
        proof (cases "can_open env out")
          case True
          have "effect (process_audio env audio_data out) (Inr ())
                  (FromFile audio_data # LoadModel # map Transcribe chunks @ [OpenWrite out, PrintSaved out])
                  (Some (out, concat (map (\<lambda>c. text_of m c @ newline) chunks)))"
            by (rule process_audio_all_succeed(1) [OF s Some ok True])
          then show ?thesis using s Some ok by blast
        next
          case False
          have "effect (process_audio env audio_data out) (Inl OSError)
                  (FromFile audio_data # LoadModel # map Transcribe chunks @ [OpenWrite out]) None"
            by (rule process_audio_all_succeed(2) [OF s Some ok False])
          then show ?thesis by blast
        qed
      next
        case bad
        have "effect (process_audio env audio_data out) (Inl (TranscriptionError d))
                (FromFile audio_data # LoadModel # map Transcribe (pre @ [c])) None"
          by (rule process_audio_chunk_fails [OF s [unfolded bad(1)] Some bad(2,3)])
        then show ?thesis by blast
      qed
    qed
  qed
qed

lemma effect_twice:
  assumes "effect f r evs wr"
  shows "fst (f w') = fst (f w)"
    and "drop (length (trace w')) (trace (snd (f w'))) = drop (length (trace w)) (trace (snd (f w)))"
    and "files (snd (f (snd (f w)))) = files (snd (f w))"
proof -
  note e = effectD [OF assms]
  show "fst (f w') = fst (f w)" by (simp add: e)
  show "drop (length (trace w')) (trace (snd (f w'))) = drop (length (trace w)) (trace (snd (f w)))"
    by (simp add: e)
  show "files (snd (f (snd (f w)))) = files (snd (f w))"
    by (cases wr) (auto simp: e)
qed

text \<open>
  Claim C8. Running the orchestrator twice on the same audio buffer and chunk duration,
  with the same deterministic engine, yields identical transcripts: the result of a run,
  the calls it makes and the text it writes do not depend on the world it starts in; in
  particular a second run, started in the world the first one left, rewrites the same
  file content. The same holds for segmentation with any chunk duration and for the
  transcription loop on any chunk sequence.
\<close>

theorem process_audio_deterministic:
  "fst (process_audio env audio_data out w') = fst (process_audio env audio_data out w)
   \<and> drop (length (trace w')) (trace (snd (process_audio env audio_data out w'))) =
       drop (length (trace w)) (trace (snd (process_audio env audio_data out w)))
   \<and> (fst (process_audio env audio_data out w) = Inr () \<longrightarrow>
        files (snd (process_audio env audio_data out w')) out =
        files (snd (process_audio env audio_data out w)) out
        \<and> files (snd (process_audio env audio_data out w)) out \<noteq> None)
   \<and> files (snd (process_audio env audio_data out (snd (process_audio env audio_data out w)))) =
       files (snd (process_audio env audio_data out w))
   \<and> fst (split_audio env audio_data cd w') = fst (split_audio env audio_data cd w)
   \<and> fst (transcribe_loop m chunks acc w') = fst (transcribe_loop m chunks acc w)"
proof -
  obtain r evs wr where e: "effect (process_audio env audio_data out) r evs wr"
    and c: "(\<exists>e. r = Inl e \<and> wr = None) \<or> (r = Inr () \<and> (\<exists>t. wr = Some (out, t)))"
    using process_audio_outcome [of env audio_data out] by blast
  obtain rs where s: "effect (split_audio env audio_data cd) rs [FromFile audio_data] None"
    using split_audio_some_effect by blast
  obtain rl evl where l: "effect (transcribe_loop m chunks acc) rl evl None"
    using transcribe_loop_some_effect by blast
  have written: "files (snd (process_audio env audio_data out w')) out =
        files (snd (process_audio env audio_data out w)) out
        \<and> files (snd (process_audio env audio_data out w)) out \<noteq> None"
    if "fst (process_audio env audio_data out w) = Inr ()"
  proof -
    have "r = Inr ()" using that by (simp add: effectD [OF e])
    then obtain t where "wr = Some (out, t)" using c by auto
    then show ?thesis by (simp add: effectD [OF e])
  qed
  show ?thesis
    using effect_twice(1) [OF e, of w' w] effect_twice(2) [OF e, of w' w]
      effect_twice(3) [OF e, of w] effect_twice(1) [OF s, of w' w]
      effect_twice(1) [OF l, of w' w] written
    by (intro conjI impI) simp_all
qed

text \<open>The example run, repeated in the world it left behind.\<close>

theorem process_audio_deterministic_witness:
  "fst (process_audio (ex_env ex_model) ex_wav ''out.txt'' ex_world) = Inr ()
   \<and> files (snd (process_audio (ex_env ex_model) ex_wav ''out.txt''
        (snd (process_audio (ex_env ex_model) ex_wav ''out.txt'' ex_world)))) ''out.txt'' =
       Some [CHR ''a'', CHR 0x0A, CHR ''b'', CHR 0x0A, CHR ''c'', CHR 0x0A]
   \<and> files (snd (process_audio (ex_env ex_model) ex_wav ''out.txt'' ex_world)) ''out.txt'' =
       Some [CHR ''a'', CHR 0x0A, CHR ''b'', CHR 0x0A, CHR ''c'', CHR 0x0A]"
proof -
  let ?run = "process_audio (ex_env ex_model) ex_wav ''out.txt''"
  let ?chunks = "[BytesIO [1], BytesIO [2], BytesIO [3]]"
  have ok: "\<forall>c\<in>set ?chunks. \<exists>t. ex_model c = Inr t"
    by (simp add: ex_model_def)
  have l: "load_model (ex_env ex_model) = Some ex_model" and o: "can_open (ex_env ex_model) ''out.txt''"
    by (simp_all add: ex_env_def)
  note f = written_file [OF process_audio_all_succeed(1) [OF ex_split_audio l ok o], of ex_world]
  have tx: "concat (map (\<lambda>c. text_of ex_model c @ newline) ?chunks) =
              [CHR ''a'', CHR 0x0A, CHR ''b'', CHR 0x0A, CHR ''c'', CHR 0x0A]"
    by (simp add: text_of_def ex_model_def newline_def)
  have a: "fst (?run ex_world) = Inr ()" using f by simp
  have b: "files (snd (?run ex_world)) ''out.txt'' =
       Some [CHR ''a'', CHR 0x0A, CHR ''b'', CHR 0x0A, CHR ''c'', CHR 0x0A]"
    using f by (simp only: tx) simp
  note d = process_audio_deterministic
             [of "ex_env ex_model" ex_wav "''out.txt''" "snd (?run ex_world)" ex_world 30 ex_model "[]" "[]"]
  have c: "files (snd (?run (snd (?run ex_world)))) ''out.txt'' = files (snd (?run ex_world)) ''out.txt''"
    using d [THEN conjunct2, THEN conjunct2, THEN conjunct1, THEN mp, OF a] by simp
  from a b c show ?thesis by simp
qed




lemma map_nth_upt: "map (\<lambda>i. f (xs ! i)) [0..<length xs] = map f xs"
proof -
  have "map (\<lambda>i. f (xs ! i)) [0..<length xs] = map f (map ((!) xs) [0..<length xs])"
    by (simp only: map_map o_def)
  then show ?thesis by (simp only: map_nth)
qed

text \<open>
  Claim C6. In every run, once segmentation has produced the chunks and the model is
  loaded, the chunks are transcribed in ascending index order, each after the
  segmentation call: the transcription calls of the run are those for the first \<open>n\<close>
  chunks, in chunk order, right after the decoding of the audio buffer and the model
  load, and no other transcription call follows. When the run succeeds, all chunks were
  transcribed (\<open>n\<close> is their number), piece \<open>i\<close> of the written text is the text the
  model returned for chunk \<open>i\<close>, and the pieces are joined in chunk order.
\<close>

theorem chunks_transcribed_in_order:
  assumes "fst (split_audio env audio_data 30 w) = Inr chunks"
    and "load_model env = Some m"
  shows "\<exists>n rest. n \<le> length chunks
     \<and> trace (snd (process_audio env audio_data out w)) =
         trace w @ FromFile audio_data # LoadModel # map Transcribe (take n chunks) @ rest
     \<and> (\<forall>c. Transcribe c \<notin> set rest)
     \<and> (fst (process_audio env audio_data out w) = Inr () \<longrightarrow>
          n = length chunks
        \<and> (\<forall>i<length chunks. m (chunks ! i) = Inr (text_of m (chunks ! i)))
        \<and> files (snd (process_audio env audio_data out w)) out =
            Some (concat (map (\<lambda>i. text_of m (chunks ! i) @ newline) [0..<length chunks])))"
proof -
  note s = split_audio_result [OF assms(1)]
  consider (ok) "\<forall>c\<in>set chunks. \<exists>t. m c = Inr t"
    | (bad) pre c post d where "chunks = pre @ c # post" "\<forall>p\<in>set pre. \<exists>t. m p = Inr t" "m c = Inl d"
    using first_failure_split [of chunks m] by blast
  then show ?thesis
  proof cases
    case ok
    have texts: "\<forall>i<length chunks. m (chunks ! i) = Inr (text_of m (chunks ! i))"
    proof (intro allI impI)
      fix i assume "i < length chunks"
      then have "chunks ! i \<in> set chunks" by simp
      then obtain t where "m (chunks ! i) = Inr t" using ok by blast
      then show "m (chunks ! i) = Inr (text_of m (chunks ! i))" by (simp add: text_of_def)
    qed
    have tx: "concat (map (\<lambda>i. text_of m (chunks ! i) @ newline) [0..<length chunks]) =
                concat (map (\<lambda>c. text_of m c @ newline) chunks)"
      by (simp only: map_nth_upt [of "\<lambda>c. text_of m c @ newline" chunks])
    show ?thesis
    proof (cases "can_open env out")
      case True
      note f = written_file [OF process_audio_all_succeed(1) [OF s assms(2) ok True], of w]
      have "trace (snd (process_audio env audio_data out w)) =
         trace w @ FromFile audio_data # LoadModel # map Transcribe (take (length chunks) chunks)
           @ [OpenWrite out, PrintSaved out]"
        using f by simp
      moreover have "files (snd (process_audio env audio_data out w)) out =
            Some (concat (map (\<lambda>i. text_of m (chunks ! i) @ newline) [0..<length chunks]))"
        using f by (simp only: tx) simp
      ultimately show ?thesis
        using texts by (intro exI [of _ "length chunks"] exI [of _ "[OpenWrite out, PrintSaved out]"]) simp
    next
      case False
      note f = world_trace_only [OF process_audio_all_succeed(2) [OF s assms(2) ok False], of w]
      have "trace (snd (process_audio env audio_data out w)) =
         trace w @ FromFile audio_data # LoadModel # map Transcribe (take (length chunks) chunks)
           @ [OpenWrite out]"
        by (simp add: f)
      moreover have "fst (process_audio env audio_data out w) \<noteq> Inr ()"
        by (simp add: f)
      ultimately show ?thesis
        by (intro exI [of _ "length chunks"] exI [of _ "[OpenWrite out]"]) simp
    qed
  next
    case bad
    note f = world_trace_only
               [OF process_audio_chunk_fails [OF s [unfolded bad(1)] assms(2) bad(2,3)], of out w]
    have t: "take (Suc (length pre)) chunks = pre @ [c]" by (simp add: bad(1))
    have "trace (snd (process_audio env audio_data out w)) =
         trace w @ FromFile audio_data # LoadModel # map Transcribe (take (Suc (length pre)) chunks) @ []"
      by (simp only: t f snd_conv) simp
    moreover have "fst (process_audio env audio_data out w) \<noteq> Inr ()"
      by (simp add: f)
    moreover have "Suc (length pre) \<le> length chunks" by (simp add: bad(1))
    ultimately show ?thesis
      by (intro exI [of _ "Suc (length pre)"] exI [of _ "[]"]) simp
  qed
qed

text \<open>The claim at the example run that succeeds on its three chunks.\<close>

theorem chunks_transcribed_in_order_witness:
  "fst (split_audio (ex_env ex_model) ex_wav 30 ex_world) = Inr [BytesIO [1], BytesIO [2], BytesIO [3]]
   \<and> load_model (ex_env ex_model) = Some ex_model
   \<and> fst (process_audio (ex_env ex_model) ex_wav ''out.txt'' ex_world) = Inr ()
   \<and> (\<exists>rest. trace (snd (process_audio (ex_env ex_model) ex_wav ''out.txt'' ex_world)) =
         FromFile ex_wav # LoadModel #
           [Transcribe (BytesIO [1]), Transcribe (BytesIO [2]), Transcribe (BytesIO [3])] @ rest
        \<and> list_all (\<lambda>e. \<forall>c. e \<noteq> Transcribe c) rest)
   \<and> files (snd (process_audio (ex_env ex_model) ex_wav ''out.txt'' ex_world)) ''out.txt'' =
       Some [CHR ''a'', CHR 0x0A, CHR ''b'', CHR 0x0A, CHR ''c'', CHR 0x0A]"
proof -
  let ?chunks = "[BytesIO [1], BytesIO [2], BytesIO [3]]"
  let ?run = "process_audio (ex_env ex_model) ex_wav ''out.txt'' ex_world"
  have s: "fst (split_audio (ex_env ex_model) ex_wav 30 ex_world) = Inr ?chunks"
    by (simp add: world_trace_only [OF ex_split_audio])
  have l: "load_model (ex_env ex_model) = Some ex_model" and o: "can_open (ex_env ex_model) ''out.txt''"
    by (simp_all add: ex_env_def)
  have ok: "\<forall>c\<in>set ?chunks. \<exists>t. ex_model c = Inr t"
    by (simp add: ex_model_def)
  have a: "fst ?run = Inr ()"
    using written_file [OF process_audio_all_succeed(1) [OF ex_split_audio l ok o], of ex_world]
    by simp
  obtain n rest where x: "trace (snd ?run) =
         trace ex_world @ FromFile ex_wav # LoadModel # map Transcribe (take n ?chunks) @ rest"
    "\<forall>c. Transcribe c \<notin> set rest"
    "fst ?run = Inr () \<longrightarrow>
          n = length ?chunks
        \<and> (\<forall>i<length ?chunks. ex_model (?chunks ! i) = Inr (text_of ex_model (?chunks ! i)))
        \<and> files (snd ?run) ''out.txt'' =
            Some (concat (map (\<lambda>i. text_of ex_model (?chunks ! i) @ newline) [0..<length ?chunks]))"
    using chunks_transcribed_in_order [OF s l, of "''out.txt''"] by blast
  have n: "n = length ?chunks"
    and f: "files (snd ?run) ''out.txt'' =
            Some (concat (map (\<lambda>i. text_of ex_model (?chunks ! i) @ newline) [0..<length ?chunks]))"
    using x(3) a by simp_all
  have tx: "concat (map (\<lambda>i. text_of ex_model (?chunks ! i) @ newline) [0..<length ?chunks]) =
              [CHR ''a'', CHR 0x0A, CHR ''b'', CHR 0x0A, CHR ''c'', CHR 0x0A]"
    by (simp add: upt_3 text_of_def ex_model_def newline_def)
  have r: "list_all (\<lambda>e. \<forall>c. e \<noteq> Transcribe c) rest"
    using x(2) by (auto simp: list_all_iff)
  have t: "trace (snd ?run) = FromFile ex_wav # LoadModel #
           [Transcribe (BytesIO [1]), Transcribe (BytesIO [2]), Transcribe (BytesIO [3])] @ rest"
    using x(1) n by (simp add: ex_world_def)
  have f': "files (snd ?run) ''out.txt'' =
       Some [CHR ''a'', CHR 0x0A, CHR ''b'', CHR 0x0A, CHR ''c'', CHR 0x0A]"
    using f by (simp only: tx)
  from t r have e: "\<exists>rest. trace (snd ?run) = FromFile ex_wav # LoadModel #
           [Transcribe (BytesIO [1]), Transcribe (BytesIO [2]), Transcribe (BytesIO [3])] @ rest
        \<and> list_all (\<lambda>e. \<forall>c. e \<noteq> Transcribe c) rest"
    by blast
  from s l a e f' show ?thesis by (intro conjI)
qed

section \<open>Configuration and decoding\<close>

lemma audio_chunks_zero: "audio_chunks audio 0 = Inl ValueError"
  by (simp add: audio_chunks_def py_range_def)

lemma audio_chunks_negative: "cd < 0 \<Longrightarrow> audio_chunks audio cd = Inr []"
  by (simp add: audio_chunks_def py_range_def range_from_neg)

lemma audio_chunks_error: "audio_chunks audio cd = Inl e \<Longrightarrow> e = ValueError"
  by (simp add: audio_chunks_def py_range_def split: if_splits)

lemma split_audio_error:
  "fst (split_audio env audio_data cd w) = Inl e \<Longrightarrow> e = DecodeError \<or> e = ValueError"
  by (auto simp: split_audio_def Let_def split: option.splits sum.splits dest: audio_chunks_error)

text \<open>
  Claim C4 says that a chunk duration of zero or less makes segmentation fail with
  \<open>InvalidConfig\<close>, before any download or decoding. The source never checks the chunk
  duration: on the example buffer a chunk duration of \<open>-1\<close> gives the empty chunk
  sequence and no error, and a chunk duration of \<open>0\<close> gives the \<open>ValueError\<close> of
  \<open>range\<close>, after the buffer has been decoded.
\<close>

theorem negative_chunk_duration_example:
  "fst (split_audio (ex_env ex_model) ex_wav (- 1) ex_world) = Inr []
   \<and> split_audio (ex_env ex_model) ex_wav 0 ex_world =
       (Inl ValueError, ex_world\<lparr>trace := [FromFile ex_wav]\<rparr>)"
proof -
  have f: "from_file (ex_env ex_model) ex_wav = Some ex_audio"
    by (simp add: ex_env_def)
  have "fst (split_audio (ex_env ex_model) ex_wav (- 1) ex_world) = Inr []"
    by (simp add: split_audio_decoded [OF f] audio_chunks_negative)
  moreover have "split_audio (ex_env ex_model) ex_wav 0 ex_world =
       (Inl ValueError, ex_world\<lparr>trace := [FromFile ex_wav]\<rparr>)"
    by (simp add: split_audio_decoded [OF f] audio_chunks_zero emit_def ex_world_def)
  ultimately show ?thesis by (rule conjI)
qed

text \<open>
  Claim C4, amended. A chunk duration of zero makes segmentation fail with Python's
  \<open>ValueError\<close>, and a negative chunk duration makes it return the empty chunk sequence
  without any error; \<open>InvalidConfig\<close> is never raised. Neither happens before the
  decoding: the audio buffer is decoded first, whatever the chunk duration is, and every
  run of \<open>process_video\<close> (which passes no chunk duration and so uses 30) starts with
  the download.
\<close>

theorem nonpositive_chunk_duration:
  "(from_file env audio_data = Some audio \<and> chunk_duration = 0 \<longrightarrow>
      split_audio env audio_data chunk_duration w = (Inl ValueError, emit (FromFile audio_data) w))
   \<and> (from_file env audio_data = Some audio \<and> chunk_duration < 0 \<longrightarrow>
      split_audio env audio_data chunk_duration w = (Inr [], emit (FromFile audio_data) w))
   \<and> fst (split_audio env audio_data chunk_duration w) \<noteq> Inl InvalidConfig
   \<and> trace (snd (split_audio env audio_data chunk_duration w)) = trace w @ [FromFile audio_data]
   \<and> fst (process_video env video_url out w) \<noteq> Inl InvalidConfig
   \<and> (\<exists>rest. trace (snd (process_video env video_url out w)) = trace w @ HttpGet video_url # rest)"
proof (intro conjI impI)
  assume "from_file env audio_data = Some audio \<and> chunk_duration = 0"
  then show "split_audio env audio_data chunk_duration w = (Inl ValueError, emit (FromFile audio_data) w)"
    by (simp add: split_audio_decoded audio_chunks_zero)
next
  assume "from_file env audio_data = Some audio \<and> chunk_duration < 0"
  then show "split_audio env audio_data chunk_duration w = (Inr [], emit (FromFile audio_data) w)"
    by (simp add: split_audio_decoded audio_chunks_negative)
next
  show "fst (split_audio env audio_data chunk_duration w) \<noteq> Inl InvalidConfig"
    using split_audio_error [of env audio_data chunk_duration w InvalidConfig] by auto
next
  show "trace (snd (split_audio env audio_data chunk_duration w)) = trace w @ [FromFile audio_data]"
    by (simp add: world_trace_only [OF effect_split_audio])
next
  show "fst (process_video env video_url out w) \<noteq> Inl InvalidConfig"
    by (cases "http_get env video_url") (simp_all add: world_trace_only [OF process_video_effect])
next
  show "\<exists>rest. trace (snd (process_video env video_url out w)) = trace w @ HttpGet video_url # rest"
    by (simp add: world_trace_only [OF process_video_effect])
qed

text \<open>The amended claim on the example buffer, at chunk durations \<open>0\<close> and \<open>-5\<close>.\<close>

theorem nonpositive_chunk_duration_witness:
  "from_file (ex_env ex_model) ex_wav = Some ex_audio
   \<and> split_audio (ex_env ex_model) ex_wav 0 ex_world = (Inl ValueError, emit (FromFile ex_wav) ex_world)
   \<and> (- 5 :: int) < 0
   \<and> split_audio (ex_env ex_model) ex_wav (- 5) ex_world = (Inr [], emit (FromFile ex_wav) ex_world)"
proof -
  have f: "from_file (ex_env ex_model) ex_wav = Some ex_audio"
    by (simp add: ex_env_def)
  have z: "split_audio (ex_env ex_model) ex_wav 0 ex_world = (Inl ValueError, emit (FromFile ex_wav) ex_world)"
    using nonpositive_chunk_duration
            [of "ex_env ex_model" ex_wav ex_audio 0 ex_world "''out.txt''" "''http://v''", THEN conjunct1]
      f
    by blast
  have n: "(- 5 :: int) < 0" by simp
  have m: "split_audio (ex_env ex_model) ex_wav (- 5) ex_world = (Inr [], emit (FromFile ex_wav) ex_world)"
    using nonpositive_chunk_duration
            [of "ex_env ex_model" ex_wav ex_audio "- 5" ex_world "''out.txt''" "''http://v''",
             THEN conjunct2, THEN conjunct1]
      f n
    by blast
  from f z n m show ?thesis by (intro conjI)
qed

text \<open>
  Claim C10. For every video byte string on which the ffmpeg run succeeds,
  \<open>extract_audio\<close> returns an empty buffer, whatever ffmpeg wrote to its standard
  output; no call of \<open>extract_audio\<close> returns anything but an empty buffer; so the
  stages after it get zero-length audio data whatever the video was.
\<close>

theorem extract_audio_returns_empty_buffer:
  "(ffmpeg_run env video = Some (out, err) \<longrightarrow>
      extract_audio env (Bytes video) w = (Inr (BytesIO []), emit (FfmpegRun video) w))
   \<and> (\<forall>buf. fst (extract_audio env video_data w) = Inr buf \<longrightarrow> buf = BytesIO [])
   \<and> (\<forall>buf. fst (extract_audio env video_data w) = Inr buf \<longrightarrow>
        split_audio env buf cd w' = split_audio env (BytesIO []) cd w'
      \<and> process_audio env buf path w' = process_audio env (BytesIO []) path w')"
proof (intro conjI allI impI)
  assume "ffmpeg_run env video = Some (out, err)"
  then show "extract_audio env (Bytes video) w = (Inr (BytesIO []), emit (FfmpegRun video) w)"
    by (simp add: extract_audio_def Let_def)
next
  fix buf assume "fst (extract_audio env video_data w) = Inr buf"
  then show e: "buf = BytesIO []"
    by (auto simp: extract_audio_def Let_def split: buffer.splits option.splits)
  then show "split_audio env buf cd w' = split_audio env (BytesIO []) cd w'"
    and "process_audio env buf path w' = process_audio env (BytesIO []) path w'"
    by simp_all
qed

text \<open>The claim in the example environment, whose ffmpeg run returns four bytes.\<close>

theorem extract_audio_returns_empty_buffer_witness:
  "ffmpeg_run (ex_env ex_model) [0] = Some ([82, 73, 70, 70], [])
   \<and> extract_audio (ex_env ex_model) (Bytes [0]) ex_world =
       (Inr (BytesIO []), emit (FfmpegRun [0]) ex_world)"
proof -
  have f: "ffmpeg_run (ex_env ex_model) [0] = Some ([82, 73, 70, 70], [])"
    by (simp add: ex_env_def)
  have "extract_audio (ex_env ex_model) (Bytes [0]) ex_world =
       (Inr (BytesIO []), emit (FfmpegRun [0]) ex_world)"
    using extract_audio_returns_empty_buffer
            [of "ex_env ex_model" "[0]" "[82, 73, 70, 70]" "[]" ex_world "Bytes [0]" 30 ex_world "''out.txt''",
             THEN conjunct1] f
    by blast
  with f show ?thesis by (rule conjI)
qed

end
